theory Spec2Isabelle
  imports Main "HOL-Library.Word"
begin

section \<open>Data model of the meal filter panel\<close>

text \<open>
  The component \<^verbatim>\<open>MealFiltersComponent\<close> of
  \<^verbatim>\<open>src/components/MealFiltersComponent.tsx\<close> holds a draft of the search text,
  receives the committed filter object from its parent and proposes replacements through
  the callback \<^verbatim>\<open>onFiltersChange\<close>.

  A JavaScript string is a sequence of UTF-16 code units. String literals of the source
  are ASCII and are written \<open>js ''...''\<close>.
\<close>

type_synonym code_unit = "16 word"
type_synonym js_string = "code_unit list"

definition js :: "string \<Rightarrow> js_string" where
  "js s = map of_char s"

text \<open>
  \<^verbatim>\<open>String.prototype.trim\<close> removes the leading and trailing white space and line
  terminators of ECMAScript: TAB, LF, VT, FF, CR, SP, NBSP, the space separators of
  Unicode (all in the basic plane), LS, PS and the byte order mark.
\<close>

definition isWhiteSpace :: "code_unit \<Rightarrow> bool" where
  "isWhiteSpace c = (c \<in> set [0x9, 0xA, 0xB, 0xC, 0xD, 0x20, 0xA0, 0x1680,
     0x2000, 0x2001, 0x2002, 0x2003, 0x2004, 0x2005, 0x2006, 0x2007, 0x2008, 0x2009, 0x200A,
     0x2028, 0x2029, 0x202F, 0x205F, 0x3000, 0xFEFF])"

definition trim :: "js_string \<Rightarrow> js_string" where
  "trim s = rev (dropWhile isWhiteSpace (rev (dropWhile isWhiteSpace s)))"

text \<open>
  The type \<^verbatim>\<open>MealFilters\<close> is imported from \<^verbatim>\<open>../types\<close>; its fields are
  the ones the component reads and writes, all optional. The handlers take plain strings
  and cast them (\<^verbatim>\<open>category as MealCategory\<close>, \<^verbatim>\<open>sortBy as any\<close>), so category and
  sort fields are strings; the typed values are singled out where a property needs them.
  Tag identifiers are integers.
\<close>

record MealFilters =
  search :: "js_string option"
  category :: "js_string option"
  sort_by :: "js_string option"
  sort_order :: "js_string option"
  dietary_tags :: "int list option"

text \<open>The object literal \<^verbatim>\<open>{}\<close>.\<close>

definition emptyFilters :: MealFilters where
  "emptyFilters = \<lparr>search = None, category = None, sort_by = None, sort_order = None,
     dietary_tags = None\<rparr>"

text \<open>
  \<^verbatim>\<open>x || d\<close> on an optional string: \<^verbatim>\<open>undefined\<close> and the empty string are falsy.
  \<open>orUndefined\<close> is \<^verbatim>\<open>s || undefined\<close>, \<open>truthy\<close> the truth value of an optional
  string in a condition.
\<close>

definition orElse :: "js_string option \<Rightarrow> js_string \<Rightarrow> js_string" where
  "orElse x d = (case x of None \<Rightarrow> d | Some s \<Rightarrow> if s = [] then d else s)"

definition orUndefined :: "js_string \<Rightarrow> js_string option" where
  "orUndefined s = (if s = [] then None else Some s)"

definition truthy :: "js_string option \<Rightarrow> bool" where
  "truthy x = (case x of None \<Rightarrow> False | Some s \<Rightarrow> s \<noteq> [])"

section \<open>The handlers\<close>

text \<open>
  Each handler calls \<^verbatim>\<open>onFiltersChange\<close> once; the model returns the object passed to
  the callback. \<open>f\<close> is the \<^verbatim>\<open>filters\<close> prop of the current render.
\<close>

definition handleCategoryChange :: "js_string \<Rightarrow> MealFilters \<Rightarrow> MealFilters" where
  "handleCategoryChange c f = f\<lparr>category := (if c = js ''all'' then None else Some c)\<rparr>"

definition handleSortChange :: "js_string \<Rightarrow> js_string \<Rightarrow> MealFilters \<Rightarrow> MealFilters" where
  "handleSortChange sortBy sortOrder f = f\<lparr>sort_by := Some sortBy, sort_order := Some sortOrder\<rparr>"

text \<open>The two controls that call \<^verbatim>\<open>handleSortChange\<close>: the sort select and the
  direction button.\<close>

definition onSortValueChange :: "js_string \<Rightarrow> MealFilters \<Rightarrow> MealFilters" where
  "onSortValueChange v f = handleSortChange v (orElse (sort_order f) (js ''desc'')) f"

definition onSortOrderClick :: "MealFilters \<Rightarrow> MealFilters" where
  "onSortOrderClick f =
     handleSortChange (orElse (sort_by f) (js ''created_at''))
       (if sort_order f = Some (js ''asc'') then js ''desc'' else js ''asc'') f"

text \<open>\<^verbatim>\<open>filters.dietary_tags || []\<close>: an array is truthy, also the empty one.\<close>

definition currentTags :: "MealFilters \<Rightarrow> int list" where
  "currentTags f = (case dietary_tags f of None \<Rightarrow> [] | Some ts \<Rightarrow> ts)"

definition newTags :: "int \<Rightarrow> int list \<Rightarrow> int list" where
  "newTags tagId ts =
     (if tagId \<in> set ts then filter (\<lambda>i. i \<noteq> tagId) ts else ts @ [tagId])"

definition handleDietaryTagToggle :: "int \<Rightarrow> MealFilters \<Rightarrow> MealFilters" where
  "handleDietaryTagToggle tagId f =
     (let nt = newTags tagId (currentTags f)
      in f\<lparr>dietary_tags := (if length nt > 0 then Some nt else None)\<rparr>)"

definition clearAllFilters :: "MealFilters \<Rightarrow> MealFilters" where
  "clearAllFilters f = emptyFilters"

text \<open>The truth value of \<^verbatim>\<open>hasActiveFilters\<close>, which gates the clear button and the
  summary.\<close>

definition hasActiveFilters :: "MealFilters \<Rightarrow> bool" where
  "hasActiveFilters f =
     (truthy (search f) \<or> truthy (category f) \<or>
      (case dietary_tags f of None \<Rightarrow> False | Some ts \<Rightarrow> length ts > 0))"

section \<open>The component as a state machine\<close>

text \<open>
  The state between two events: the hook state \<^verbatim>\<open>localSearch\<close>, the \<^verbatim>\<open>filters\<close>
  prop of the last render, and the pending timer of the debounce effect, if any: the time
  left and the values of \<^verbatim>\<open>localSearch\<close> and \<^verbatim>\<open>filters\<close> its callback captured.
\<close>

record component =
  localSearch :: js_string
  filters :: MealFilters
  timer :: "(nat \<times> js_string \<times> MealFilters) option"

text \<open>The body of the timer callback: the list of objects passed to
  \<^verbatim>\<open>onFiltersChange\<close>, empty or a singleton.\<close>

definition timerCallback :: "js_string \<Rightarrow> MealFilters \<Rightarrow> MealFilters list" where
  "timerCallback ls f =
     (let trimmedSearch = trim ls
      in if trimmedSearch \<noteq> orElse (search f) []
         then [f\<lparr>search := orUndefined trimmedSearch\<rparr>] else [])"

text \<open>
  The debounce effect depends on \<^verbatim>\<open>[localSearch, filters, onFiltersChange]\<close>: when it
  runs again, its cleanup clears the pending timer and a new one of 300 is set.
\<close>

definition debounceEffect :: "component \<Rightarrow> component" where
  "debounceEffect s = s\<lparr>timer := Some (300, localSearch s, filters s)\<rparr>"

text \<open>\<^verbatim>\<open>setLocalSearch\<close>: a state equal to the current one renders nothing anew; a new
  one renders and runs the debounce effect again.\<close>

definition setLocalSearch :: "js_string \<Rightarrow> component \<Rightarrow> component" where
  "setLocalSearch v s = (if v = localSearch s then s else debounceEffect (s\<lparr>localSearch := v\<rparr>))"

definition handleSearchChange :: "js_string \<Rightarrow> component \<Rightarrow> component" where
  "handleSearchChange v s = setLocalSearch v s"

text \<open>
  The reset effect depends on \<^verbatim>\<open>[filters.search]\<close> and sets the draft to
  \<^verbatim>\<open>filters.search || ''\<close>. Both effects of a render see the values of that render; the
  state set by the reset effect takes effect in a render of its own, after them, so the
  model runs the debounce effect of the render first.
\<close>

definition resetEffect :: "component \<Rightarrow> component" where
  "resetEffect s = setLocalSearch (orElse (search (filters s)) []) s"

text \<open>
  First render: \<^verbatim>\<open>useState(filters.search || '')\<close>, then both effects run; the reset
  effect sets the state to the value it has.
\<close>

definition mount :: "MealFilters \<Rightarrow> component" where
  "mount f =
     resetEffect (debounceEffect \<lparr>localSearch = orElse (search f) [], filters = f, timer = None\<rparr>)"

text \<open>
  The parent renders the component with a new filters object \<open>f\<close>. The debounce effect
  runs again (the object is new); the reset effect runs when \<^verbatim>\<open>filters.search\<close> has
  changed.
\<close>

definition rerender :: "MealFilters \<Rightarrow> component \<Rightarrow> component" where
  "rerender f s =
     (let s1 = debounceEffect (s\<lparr>filters := f\<rparr>)
      in if search f \<noteq> search (filters s) then resetEffect s1 else s1)"

text \<open>Time passes: the pending timer fires once its delay has elapsed.\<close>

definition elapse :: "nat \<Rightarrow> component \<Rightarrow> MealFilters list \<times> component" where
  "elapse d s =
     (case timer s of
        None \<Rightarrow> ([], s)
      | Some (r, ls, f) \<Rightarrow>
          if d < r then ([], s\<lparr>timer := Some (r - d, ls, f)\<rparr>)
          else (timerCallback ls f, s\<lparr>timer := None\<rparr>))"

datatype event =
    Edit js_string
  | Props MealFilters
  | Elapse nat
  | CategoryPick js_string
  | SortPick js_string
  | SortOrderClick
  | TagClick int
  | ClearClick

text \<open>One event: the objects passed to \<^verbatim>\<open>onFiltersChange\<close> and the next state. The
  clear button is rendered only when \<^verbatim>\<open>hasActiveFilters\<close> holds.\<close>

fun step :: "event \<Rightarrow> component \<Rightarrow> MealFilters list \<times> component" where
  "step (Edit v) s = ([], handleSearchChange v s)"
| "step (Props f) s = ([], rerender f s)"
| "step (Elapse d) s = elapse d s"
| "step (CategoryPick c) s = ([handleCategoryChange c (filters s)], s)"
| "step (SortPick v) s = ([onSortValueChange v (filters s)], s)"
| "step SortOrderClick s = ([onSortOrderClick (filters s)], s)"
| "step (TagClick t) s = ([handleDietaryTagToggle t (filters s)], s)"
| "step ClearClick s =
     (if hasActiveFilters (filters s) then [clearAllFilters (filters s)] else [], s)"

fun run :: "event list \<Rightarrow> component \<Rightarrow> MealFilters list \<times> component" where
  "run [] s = ([], s)"
| "run (e # es) s =
     (case step e s of (out1, s1) \<Rightarrow> (case run es s1 of (out2, s2) \<Rightarrow> (out1 @ out2, s2)))"

definition emitted :: "event list \<Rightarrow> component \<Rightarrow> MealFilters list" where
  "emitted es s = fst (run es s)"

section \<open>Auxiliary notions for the properties\<close>

text \<open>A filter object is minimal when it carries neither an empty search string nor an
  empty tag array.\<close>

definition minimal :: "MealFilters \<Rightarrow> bool" where
  "minimal f = (search f \<noteq> Some [] \<and> dietary_tags f \<noteq> Some [])"

text \<open>
  Modelled from the spec: the type \<^verbatim>\<open>MealCategory\<close> of \<^verbatim>\<open>../types\<close>, whose
  declaration is not among the sources. It is a fixed enumeration of labels, the ones the
  category select offers besides \<^verbatim>\<open>'all'\<close>. A filter state is typed when its category,
  if present, is one of them.
\<close>

definition mealCategories :: "js_string list" where
  "mealCategories = [js ''Best for Breakfast'', js ''Best for Lunch'', js ''Best for Dinner'',
     js ''Best for Snacks'']"

definition categoryTyped :: "MealFilters \<Rightarrow> bool" where
  "categoryTyped f = (case category f of None \<Rightarrow> True | Some c \<Rightarrow> c \<in> set mealCategories)"

text \<open>An event that hands minimal props to the component (any other event hands none).\<close>

fun minimalProps :: "event \<Rightarrow> bool" where
  "minimalProps (Props f) = minimal f"
| "minimalProps _ = True"

text \<open>The filters a state can still emit from: the current ones and the ones the pending
  timer captured.\<close>

definition sourcesMinimal :: "component \<Rightarrow> bool" where
  "sourcesMinimal s =
     (minimal (filters s) \<and> (case timer s of None \<Rightarrow> True | Some (r, ls, f) \<Rightarrow> minimal f))"

text \<open>Typing: each draft value is followed by the time that passes before the next edit.\<close>

fun typing :: "(js_string \<times> nat) list \<Rightarrow> event list" where
  "typing [] = []"
| "typing ((v, d) # es) = Edit v # Elapse d # typing es"

text \<open>Each value of the sequence differs from the one before, starting from the draft
  \<open>d\<close>: every edit changes the draft.\<close>

fun changes :: "js_string \<Rightarrow> js_string list \<Rightarrow> bool" where
  "changes d [] = True"
| "changes d (v # vs) = (v \<noteq> d \<and> changes v vs)"

text \<open>A sequence of tag clicks, the parent committing each emitted object.\<close>

definition toggles :: "int list \<Rightarrow> MealFilters \<Rightarrow> MealFilters" where
  "toggles ts f = fold handleDietaryTagToggle ts f"

section \<open>Runs of events\<close>

lemma run_append:
  "run (xs @ ys) s =
     (case run xs s of (o1, s1) \<Rightarrow> (case run ys s1 of (o2, s2) \<Rightarrow> (o1 @ o2, s2)))"
  by (induction xs arbitrary: s) (auto split: prod.splits)

lemma emitted_append:
  "emitted (xs @ ys) s = emitted xs s @ emitted ys (snd (run xs s))"
  by (simp add: emitted_def run_append split: prod.splits)

lemma edit_then_elapse:
  assumes "v \<noteq> localSearch s"
  shows "emitted [Edit v, Elapse d] s = (if d < 300 then [] else timerCallback v (filters s))"
  using assms
  by (simp add: emitted_def handleSearchChange_def setLocalSearch_def debounceEffect_def elapse_def)

lemma mount_simps:
  "localSearch (mount f) = orElse (search f) []" "filters (mount f) = f"
  "timer (mount f) = Some (300, orElse (search f) [], f)"
  by (simp_all add: mount_def resetEffect_def setLocalSearch_def debounceEffect_def)

section \<open>Debounced commit of the search text\<close>

text \<open>
  C1. Let the committed filter state be \<open>filters s\<close> and let the draft be edited to a new
  value \<open>V\<close> (setting the state to the value it has is no edit: nothing renders). If the trimmed \<open>V\<close> differs from the committed search value (absent read as
  the empty string) and no other event comes, then once 300 units of time have elapsed
  exactly one filter state has been emitted: the committed one with the search replaced
  by the trimmed \<open>V\<close>, absent when that is empty. Before 300 units nothing is emitted.
\<close>

theorem debounced_commit:
  assumes "V \<noteq> localSearch s" and "trim V \<noteq> orElse (search (filters s)) []"
  shows "(\<forall>d\<ge>300. emitted [Edit V, Elapse d] s =
            [(filters s)\<lparr>search := (if trim V = [] then None else Some (trim V))\<rparr>]) \<and>
         (\<forall>d<300. emitted [Edit V, Elapse d] s = [])"
  using assms by (simp add: edit_then_elapse timerCallback_def orUndefined_def)

text \<open>The scenario of the specification: committed \<^verbatim>\<open>{}\<close>, the draft edited to
  \<^verbatim>\<open>"  Pancakes "\<close>.\<close>

theorem debounced_commit_witness:
  "emitted [Edit (js ''  Pancakes ''), Elapse 300] (mount emptyFilters) =
     [emptyFilters\<lparr>search := Some (js ''Pancakes'')\<rparr>] \<and>
   emitted [Edit (js ''  Pancakes ''), Elapse 299] (mount emptyFilters) = []"
proof -
  have t: "trim (js ''  Pancakes '') = js ''Pancakes''"
    by (simp add: js_def trim_def isWhiteSpace_def)
  have a: "js ''  Pancakes '' \<noteq> localSearch (mount emptyFilters)"
    by (simp add: mount_simps emptyFilters_def orElse_def js_def)
  have b: "trim (js ''  Pancakes '') \<noteq> orElse (search (filters (mount emptyFilters))) []"
    unfolding t by (simp add: mount_simps emptyFilters_def orElse_def js_def)
  have f: "filters (mount emptyFilters) = emptyFilters"
    by (simp add: mount_simps)
  have n: "js ''Pancakes'' \<noteq> []" by (simp add: js_def)
  from debounced_commit [OF a b] show ?thesis
    by (simp add: t f n)
qed

section \<open>Last write wins\<close>

lemma typing_quiet:
  assumes "changes (localSearch s) (map fst es)" and "\<forall>p\<in>set es. snd p < 300"
  shows "fst (run (typing es) s) = [] \<and>
         filters (snd (run (typing es) s)) = filters s \<and>
         localSearch (snd (run (typing es) s)) = last (localSearch s # map fst es)"
  using assms
proof (induction es arbitrary: s)
  case Nil
  then show ?case by simp
next
  case (Cons p es)
  obtain v d where p: "p = (v, d)" by (cases p)
  let ?s1 = "snd (elapse d (handleSearchChange v s))"
  from Cons.prems p have v: "v \<noteq> localSearch s" and d: "d < 300" by auto
  have e: "elapse d (handleSearchChange v s) =
      ([], (debounceEffect (s\<lparr>localSearch := v\<rparr>))\<lparr>timer := Some (300 - d, v, filters s)\<rparr>)"
    using v d by (simp add: handleSearchChange_def setLocalSearch_def debounceEffect_def elapse_def)
  have l: "localSearch ?s1 = v" and f: "filters ?s1 = filters s"
    by (simp_all add: e debounceEffect_def)
  have "changes (localSearch ?s1) (map fst es)" using Cons.prems p l by simp
  moreover have "\<forall>q\<in>set es. snd q < 300" using Cons.prems by simp
  ultimately have ih: "fst (run (typing es) ?s1) = [] \<and>
         filters (snd (run (typing es) ?s1)) = filters ?s1 \<and>
         localSearch (snd (run (typing es) ?s1)) = last (localSearch ?s1 # map fst es)"
    by (rule Cons.IH)
  show ?case using ih e l f p
    by (simp add: split: prod.splits)
qed

lemma step_at_most_one: "length (fst (step ev s)) \<le> 1"
  by (cases ev) (auto simp: elapse_def timerCallback_def Let_def split: option.splits prod.splits)

lemma changes_append: "changes d (xs @ [v]) = (changes d xs \<and> v \<noteq> last (d # xs))"
  by (induction xs arbitrary: d) auto

text \<open>
  C2, amended. Let the draft be edited to the values of \<open>es\<close> and then to \<open>v\<close>, every
  edit changing the draft and coming less than 300 units after the one before. Once 300
  units have elapsed after the last edit, the emissions of the whole run are: the
  committed state with the search replaced by the trimmed \<open>v\<close>, once, when the trimmed \<open>v\<close>
  differs from the committed search value; nothing when it equals it. No emission carries
  an intermediate value, and no single event calls \<^verbatim>\<open>onFiltersChange\<close> more than once.
\<close>

theorem debounce_last_write_wins:
  assumes "changes (localSearch s) (map fst es @ [v])"
    and "\<forall>p\<in>set es. snd p < 300" and "300 \<le> d"
  shows "emitted (typing es @ [Edit v, Elapse d]) s =
           (if trim v \<noteq> orElse (search (filters s)) []
            then [(filters s)\<lparr>search := (if trim v = [] then None else Some (trim v))\<rparr>]
            else []) \<and>
         (\<forall>ev s'. length (fst (step ev s')) \<le> 1)"
proof -
  let ?s1 = "snd (run (typing es) s)"
  from assms(1) have c: "changes (localSearch s) (map fst es)"
    and v: "v \<noteq> last (localSearch s # map fst es)"
    by (simp_all add: changes_append)
  from typing_quiet [OF c assms(2)]
  have q: "fst (run (typing es) s) = []" and f: "filters ?s1 = filters s"
    and l: "localSearch ?s1 = last (localSearch s # map fst es)" by simp_all
  from v l have "v \<noteq> localSearch ?s1" by simp
  then have "emitted [Edit v, Elapse d] ?s1 = timerCallback v (filters s)"
    using assms(3) by (simp add: edit_then_elapse f)
  moreover have "emitted (typing es) s = []"
    using q by (simp add: emitted_def)
  ultimately have "emitted (typing es @ [Edit v, Elapse d]) s = timerCallback v (filters s)"
    by (simp only: emitted_append append_Nil)
  then have A: "emitted (typing es @ [Edit v, Elapse d]) s =
           (if trim v \<noteq> orElse (search (filters s)) []
            then [(filters s)\<lparr>search := (if trim v = [] then None else Some (trim v))\<rparr>]
            else [])"
    by (simp add: timerCallback_def orUndefined_def)
  have B: "\<forall>ev s'. length (fst (step ev s')) \<le> 1"
    using step_at_most_one by blast
  from A B show ?thesis by (rule conjI)
qed

theorem debounce_last_write_wins_witness:
  "emitted (typing [(js ''a'', 100)] @ [Edit (js ''ab''), Elapse 300]) (mount emptyFilters) =
     [emptyFilters\<lparr>search := Some (js ''ab'')\<rparr>]"
proof -
  have t: "trim (js ''ab'') = js ''ab''"
    by (simp add: js_def trim_def isWhiteSpace_def)
  have n: "js ''ab'' \<noteq> []" by (simp add: js_def)
  have c: "changes (localSearch (mount emptyFilters)) (map fst [(js ''a'', 100::nat)] @ [js ''ab''])"
    by (simp add: mount_simps emptyFilters_def orElse_def js_def)
  have g: "\<forall>p\<in>set [(js ''a'', 100::nat)]. snd p < 300" by simp
  have d: "(300::nat) \<le> 300" by simp
  from debounce_last_write_wins [OF c g d] show ?thesis
    by (simp add: t n mount_simps emptyFilters_def orElse_def)
qed

text \<open>
  As C2 is worded, one emission always results. Typing \<^verbatim>\<open>"a"\<close> and deleting it 100 units
  later, on the committed state \<^verbatim>\<open>{}\<close>, emits nothing: the trimmed final draft equals
  the committed search value.
\<close>

theorem debounce_exactly_one_counterexample:
  "changes (localSearch (mount emptyFilters)) [js ''a'', []] \<and>
   length (emitted [Edit (js ''a''), Elapse 100, Edit [], Elapse 300] (mount emptyFilters)) \<noteq> 1"
  by (simp add: emitted_def mount_simps handleSearchChange_def debounceEffect_def
      setLocalSearch_def elapse_def timerCallback_def trim_def emptyFilters_def orElse_def js_def)

section \<open>Reset of the draft on an external change\<close>

lemma rerender_reset:
  assumes "search f \<noteq> search (filters s)"
  shows "localSearch (rerender f s) = orElse (search f) []"
    and "filters (rerender f s) = f"
    and "timer (rerender f s) = Some (300, orElse (search f) [], f)"
  using assms
  by (simp_all add: rerender_def resetEffect_def setLocalSearch_def debounceEffect_def Let_def)

text \<open>
  C3, amended. When the parent hands over a filter state whose search field differs from
  the committed one, the draft is overwritten with the new search value (the empty string
  if absent) within that render, no time passing, and that render emits nothing. When the
  new value carries no leading or trailing white space, the debounce timer the render
  restarts emits nothing either, however long one waits.
\<close>

theorem external_reset:
  assumes "search f \<noteq> search (filters s)"
  shows "fst (step (Props f) s) = [] \<and>
         localSearch (snd (step (Props f) s)) = (case search f of None \<Rightarrow> [] | Some x \<Rightarrow> x) \<and>
         (trim (localSearch (snd (step (Props f) s))) = localSearch (snd (step (Props f) s))
            \<longrightarrow> (\<forall>d. emitted [Props f, Elapse d] s = []))"
proof -
  have l: "localSearch (rerender f s) = (case search f of None \<Rightarrow> [] | Some x \<Rightarrow> x)"
    by (simp add: rerender_reset(1) [OF assms] orElse_def split: option.splits)
  have "emitted [Props f, Elapse d] s = []"
    if "trim (orElse (search f) []) = orElse (search f) []" for d
    using that
    by (simp add: emitted_def elapse_def rerender_reset [OF assms] timerCallback_def)
  then show ?thesis
    using l by (simp add: rerender_reset(1) [OF assms])
qed

theorem external_reset_witness:
  "search emptyFilters \<noteq> search (filters (mount (emptyFilters\<lparr>search := Some (js ''a'')\<rparr>))) \<and>
   localSearch (mount (emptyFilters\<lparr>search := Some (js ''a'')\<rparr>)) = js ''a'' \<and>
   localSearch (snd (step (Props emptyFilters) (mount (emptyFilters\<lparr>search := Some (js ''a'')\<rparr>)))) = [] \<and>
   emitted [Props emptyFilters, Elapse 300] (mount (emptyFilters\<lparr>search := Some (js ''a'')\<rparr>)) = []"
proof -
  let ?s = "mount (emptyFilters\<lparr>search := Some (js ''a'')\<rparr>)"
  have h: "search emptyFilters \<noteq> search (filters ?s)"
    by (simp add: mount_simps emptyFilters_def)
  have t: "trim [] = []" by (simp add: trim_def)
  have m: "localSearch ?s = js ''a''"
    by (simp add: mount_simps orElse_def js_def)
  from external_reset [OF h] have
    "localSearch (snd (step (Props emptyFilters) ?s)) = []"
    "trim (localSearch (snd (step (Props emptyFilters) ?s))) = localSearch (snd (step (Props emptyFilters) ?s))
       \<longrightarrow> (\<forall>d. emitted [Props emptyFilters, Elapse d] ?s = [])"
    by (simp_all add: emptyFilters_def)
  then show ?thesis using h m t by simp
qed

text \<open>
  As C3 is worded, the reset never leads to an emission. A committed search value with
  white space around it does: after the parent sets the search to \<^verbatim>\<open>" a"\<close>, the draft
  is \<^verbatim>\<open>" a"\<close> and the timer emits the search \<^verbatim>\<open>"a"\<close> 300 units later.
\<close>

theorem external_reset_counterexample:
  "search (emptyFilters\<lparr>search := Some (js '' a'')\<rparr>) \<noteq> search (filters (mount emptyFilters)) \<and>
   emitted [Props (emptyFilters\<lparr>search := Some (js '' a'')\<rparr>), Elapse 300] (mount emptyFilters) =
     [emptyFilters\<lparr>search := Some (js ''a'')\<rparr>]"
  by (simp add: emitted_def mount_simps debounceEffect_def resetEffect_def setLocalSearch_def
      rerender_def elapse_def timerCallback_def trim_def isWhiteSpace_def orUndefined_def
      emptyFilters_def orElse_def js_def)

section \<open>Dietary tag toggle\<close>

lemma currentTags_toggle:
  "currentTags (handleDietaryTagToggle t f) = newTags t (currentTags f)"
  by (simp add: handleDietaryTagToggle_def currentTags_def Let_def)

lemma toggles_fresh:
  "distinct ts \<Longrightarrow> set ts \<inter> set (currentTags f) = {} \<Longrightarrow>
   currentTags (toggles ts f) = currentTags f @ ts"
proof (induction ts arbitrary: f)
  case Nil
  then show ?case by (simp add: toggles_def)
next
  case (Cons t ts)
  have n: "currentTags (handleDietaryTagToggle t f) = currentTags f @ [t]"
    using Cons.prems by (simp add: currentTags_toggle newTags_def)
  have "currentTags (toggles ts (handleDietaryTagToggle t f)) =
        currentTags (handleDietaryTagToggle t f) @ ts"
    using Cons.prems by (intro Cons.IH) (auto simp: n)
  then show ?case by (simp add: toggles_def n)
qed

text \<open>
  C4. The tag toggle reads the committed tags (absent as the empty list). A tag that is
  present is removed, one that is not is appended at the end. The emitted state is the
  committed one with the tag field replaced by the new list, absent when the new list is
  empty; no other field changes. The other tags keep their relative order, and tags
  toggled on one after the other are appended in the order of the toggles.
\<close>

theorem dietary_tag_toggle:
  "currentTags (handleDietaryTagToggle t f) =
     (if t \<in> set (currentTags f) then filter (\<lambda>i. i \<noteq> t) (currentTags f)
      else currentTags f @ [t]) \<and>
   dietary_tags (handleDietaryTagToggle t f) =
     (if currentTags (handleDietaryTagToggle t f) = [] then None
      else Some (currentTags (handleDietaryTagToggle t f))) \<and>
   search (handleDietaryTagToggle t f) = search f \<and>
   category (handleDietaryTagToggle t f) = category f \<and>
   sort_by (handleDietaryTagToggle t f) = sort_by f \<and>
   sort_order (handleDietaryTagToggle t f) = sort_order f \<and>
   (t \<in> set (currentTags f) \<longrightarrow> t \<notin> set (currentTags (handleDietaryTagToggle t f))) \<and>
   filter (\<lambda>i. i \<noteq> t) (currentTags (handleDietaryTagToggle t f)) =
     filter (\<lambda>i. i \<noteq> t) (currentTags f) \<and>
   (\<forall>ts. distinct ts \<and> set ts \<inter> set (currentTags f) = {} \<longrightarrow>
      currentTags (toggles ts f) = currentTags f @ ts)"
proof -
  have a: "currentTags (handleDietaryTagToggle t f) =
     (if t \<in> set (currentTags f) then filter (\<lambda>i. i \<noteq> t) (currentTags f)
      else currentTags f @ [t])"
    by (simp add: currentTags_toggle newTags_def)
  have b: "dietary_tags (handleDietaryTagToggle t f) =
     (if currentTags (handleDietaryTagToggle t f) = [] then None
      else Some (currentTags (handleDietaryTagToggle t f)))"
    by (simp add: handleDietaryTagToggle_def currentTags_def Let_def)
  have c: "search (handleDietaryTagToggle t f) = search f"
    "category (handleDietaryTagToggle t f) = category f"
    "sort_by (handleDietaryTagToggle t f) = sort_by f"
    "sort_order (handleDietaryTagToggle t f) = sort_order f"
    by (simp_all add: handleDietaryTagToggle_def Let_def)
  have d: "t \<in> set (currentTags f) \<longrightarrow> t \<notin> set (currentTags (handleDietaryTagToggle t f))"
    by (simp add: a)
  have e: "filter (\<lambda>i. i \<noteq> t) (currentTags (handleDietaryTagToggle t f)) =
     filter (\<lambda>i. i \<noteq> t) (currentTags f)"
    by (simp add: a)
  have g: "\<forall>ts. distinct ts \<and> set ts \<inter> set (currentTags f) = {} \<longrightarrow>
      currentTags (toggles ts f) = currentTags f @ ts"
    by (simp add: toggles_fresh)
  from a b c d e g show ?thesis by blast
qed

theorem dietary_tag_toggle_witness:
  "handleDietaryTagToggle 2 (emptyFilters\<lparr>dietary_tags := Some [1, 2]\<rparr>) =
     emptyFilters\<lparr>dietary_tags := Some [1]\<rparr> \<and>
   handleDietaryTagToggle 1 (emptyFilters\<lparr>dietary_tags := Some [1]\<rparr>) = emptyFilters \<and>
   currentTags (toggles [5, 3] (emptyFilters\<lparr>dietary_tags := Some [1]\<rparr>)) = [1, 5, 3]"
proof -
  let ?f = "emptyFilters\<lparr>dietary_tags := Some [1, 2]\<rparr>"
  let ?g = "emptyFilters\<lparr>dietary_tags := Some [1]\<rparr>"
  have cf: "currentTags ?f = [1, 2]" and cg: "currentTags ?g = [1]"
    by (simp_all add: currentTags_def)
  have "dietary_tags (handleDietaryTagToggle 2 ?f) = Some [1]"
    using dietary_tag_toggle [of 2 ?f] by (simp add: cf)
  moreover have "dietary_tags (handleDietaryTagToggle 1 ?g) = None"
    using dietary_tag_toggle [of 1 ?g] by (simp add: cg)
  moreover have "currentTags (toggles [5, 3] ?g) = [1, 5, 3]"
    using dietary_tag_toggle [of 1 ?g] by (simp add: cg)
  moreover have "search (handleDietaryTagToggle 2 ?f) = None" "category (handleDietaryTagToggle 2 ?f) = None"
    "sort_by (handleDietaryTagToggle 2 ?f) = None" "sort_order (handleDietaryTagToggle 2 ?f) = None"
    "search (handleDietaryTagToggle 1 ?g) = None" "category (handleDietaryTagToggle 1 ?g) = None"
    "sort_by (handleDietaryTagToggle 1 ?g) = None" "sort_order (handleDietaryTagToggle 1 ?g) = None"
    using dietary_tag_toggle [of 2 ?f] dietary_tag_toggle [of 1 ?g]
    by (simp_all add: emptyFilters_def)
  ultimately show ?thesis
    by (simp add: emptyFilters_def MealFilters.equality)
qed

section \<open>Active filters\<close>

lemma categoryTyped_nonempty: "categoryTyped f \<Longrightarrow> category f \<noteq> Some []"
  by (auto simp: categoryTyped_def mealCategories_def js_def)

lemma categoryTyped_select:
  "c \<in> set (js ''all'' # mealCategories) \<Longrightarrow> categoryTyped (handleCategoryChange c f)"
  by (auto simp: categoryTyped_def handleCategoryChange_def)

text \<open>
  C5. For every filter state whose category, when present, is a meal category,
  \<^verbatim>\<open>hasActiveFilters\<close> is truthy if and only if the search is present and non-empty, or
  the category is present, or the tag array is present and non-empty. The same holds
  for every state whose category is not the empty string. The value is falsy for the
  empty filter state.
\<close>

theorem hasActiveFilters_iff:
  "(categoryTyped f \<longrightarrow>
      (hasActiveFilters f \<longleftrightarrow>
         (\<exists>s. search f = Some s \<and> s \<noteq> []) \<or> category f \<noteq> None \<or>
         (\<exists>ts. dietary_tags f = Some ts \<and> ts \<noteq> []))) \<and>
   (category f \<noteq> Some [] \<longrightarrow>
      (hasActiveFilters f \<longleftrightarrow>
         (\<exists>s. search f = Some s \<and> s \<noteq> []) \<or> category f \<noteq> None \<or>
         (\<exists>ts. dietary_tags f = Some ts \<and> ts \<noteq> []))) \<and>
   \<not> hasActiveFilters emptyFilters"
proof -
  have a: "hasActiveFilters f \<longleftrightarrow>
         (\<exists>s. search f = Some s \<and> s \<noteq> []) \<or> category f \<noteq> None \<or>
         (\<exists>ts. dietary_tags f = Some ts \<and> ts \<noteq> [])" if "category f \<noteq> Some []"
    using that by (auto simp: hasActiveFilters_def truthy_def split: option.splits)
  have b: "\<not> hasActiveFilters emptyFilters"
    by (simp add: hasActiveFilters_def truthy_def emptyFilters_def)
  from a b show ?thesis
    by (blast dest: categoryTyped_nonempty)
qed

theorem hasActiveFilters_iff_witness:
  "categoryTyped (emptyFilters\<lparr>category := Some (js ''Best for Lunch'')\<rparr>) \<and>
   hasActiveFilters (emptyFilters\<lparr>category := Some (js ''Best for Lunch'')\<rparr>) \<and>
   categoryTyped (emptyFilters\<lparr>dietary_tags := Some [4]\<rparr>) \<and>
   hasActiveFilters (emptyFilters\<lparr>dietary_tags := Some [4]\<rparr>) \<and>
   categoryTyped (emptyFilters\<lparr>search := Some [], dietary_tags := Some []\<rparr>) \<and>
   \<not> hasActiveFilters (emptyFilters\<lparr>search := Some [], dietary_tags := Some []\<rparr>)"
proof -
  let ?l = "emptyFilters\<lparr>category := Some (js ''Best for Lunch'')\<rparr>"
  let ?t = "emptyFilters\<lparr>dietary_tags := Some [4]\<rparr>"
  let ?e = "emptyFilters\<lparr>search := Some [], dietary_tags := Some []\<rparr>"
  have l: "categoryTyped ?l"
    by (simp add: categoryTyped_def mealCategories_def)
  have t: "categoryTyped ?t" and e: "categoryTyped ?e"
    by (simp_all add: categoryTyped_def emptyFilters_def)
  from l hasActiveFilters_iff [of ?l] have "hasActiveFilters ?l"
    by (simp add: emptyFilters_def)
  moreover from t hasActiveFilters_iff [of ?t] have "hasActiveFilters ?t"
    by (simp add: emptyFilters_def)
  moreover from e hasActiveFilters_iff [of ?e] have "\<not> hasActiveFilters ?e"
    by (simp add: emptyFilters_def)
  ultimately show ?thesis using l t e by simp
qed

section \<open>Minimal filter states\<close>

lemma orUndefined_nonempty: "orUndefined x \<noteq> Some []"
  by (simp add: orUndefined_def)

lemma timerCallback_minimal:
  "minimal f \<Longrightarrow> e \<in> set (timerCallback ls f) \<Longrightarrow> minimal e"
  by (auto simp: timerCallback_def minimal_def orUndefined_nonempty Let_def split: if_splits)

lemma handlers_minimal:
  assumes "minimal f"
  shows "minimal (handleCategoryChange c f)" and "minimal (handleSortChange k d f)"
    and "minimal (onSortValueChange v f)" and "minimal (onSortOrderClick f)"
    and "minimal (handleDietaryTagToggle t f)" and "minimal (clearAllFilters f)"
  using assms
  by (simp_all add: minimal_def handleCategoryChange_def handleSortChange_def
      onSortValueChange_def onSortOrderClick_def handleDietaryTagToggle_def Let_def
      clearAllFilters_def emptyFilters_def)

lemma step_emits_minimal:
  assumes "sourcesMinimal s" and "e \<in> set (fst (step ev s))"
  shows "minimal e"
proof (cases ev)
  case (Elapse d)
  with assms show ?thesis
    by (auto simp: sourcesMinimal_def elapse_def split: option.splits if_splits
        dest: timerCallback_minimal)
qed (use assms in \<open>auto simp: sourcesMinimal_def handlers_minimal split: if_splits\<close>)

lemma step_keeps_sources:
  assumes "sourcesMinimal s" and "minimalProps ev"
  shows "sourcesMinimal (snd (step ev s))"
proof (cases ev)
  case (Edit v)
  with assms show ?thesis
    by (simp add: sourcesMinimal_def handleSearchChange_def setLocalSearch_def debounceEffect_def)
next
  case (Props f)
  with assms show ?thesis
    by (simp add: sourcesMinimal_def rerender_def resetEffect_def setLocalSearch_def
        debounceEffect_def Let_def)
next
  case (Elapse d)
  with assms show ?thesis
    by (auto simp: sourcesMinimal_def elapse_def split: option.splits)
qed (use assms in \<open>simp_all\<close>)

lemma run_emits_minimal:
  "sourcesMinimal s \<Longrightarrow> list_all minimalProps evs \<Longrightarrow> e \<in> set (emitted evs s) \<Longrightarrow> minimal e"
proof (induction evs arbitrary: s)
  case Nil
  then show ?case by (simp add: emitted_def)
next
  case (Cons ev evs)
  have unfold_run: "emitted (ev # evs) s = fst (step ev s) @ emitted evs (snd (step ev s))"
    by (simp add: emitted_def split: prod.splits)
  from Cons.prems(3) consider "e \<in> set (fst (step ev s))" | "e \<in> set (emitted evs (snd (step ev s)))"
    by (auto simp: unfold_run)
  then show ?case
  proof cases
    case 1
    with Cons.prems(1) show ?thesis by (rule step_emits_minimal)
  next
    case 2
    have "sourcesMinimal (snd (step ev s))"
      using Cons.prems by (simp add: step_keeps_sources)
    moreover have "list_all minimalProps evs" using Cons.prems by simp
    ultimately show ?thesis using 2 by (rule Cons.IH)
  qed
qed

lemma mount_sources: "minimal f \<Longrightarrow> sourcesMinimal (mount f)"
  by (simp add: sourcesMinimal_def mount_simps)

text \<open>
  C6. From a minimal committed state every operation emits a minimal state: the timer
  callback of the debounced commit, the category change, the sort change, the tag toggle
  and clear all. Hence, when the component is mounted on a minimal state and the parent
  only ever hands over minimal states, every state emitted in any run of events is
  minimal: none carries an empty search string or an empty tag array.
\<close>

theorem emitted_minimal:
  assumes "minimal f"
  shows "(\<forall>e\<in>set (timerCallback ls f). minimal e) \<and>
         minimal (handleCategoryChange c f) \<and>
         minimal (handleSortChange k d f) \<and>
         minimal (handleDietaryTagToggle t f) \<and>
         minimal (clearAllFilters f) \<and>
         (\<forall>evs. list_all minimalProps evs \<longrightarrow> (\<forall>e\<in>set (emitted evs (mount f)). minimal e))"
proof -
  have "\<forall>e\<in>set (timerCallback ls f). minimal e"
    using assms by (blast intro: timerCallback_minimal)
  moreover have "\<forall>evs. list_all minimalProps evs \<longrightarrow> (\<forall>e\<in>set (emitted evs (mount f)). minimal e)"
    using assms by (blast intro: run_emits_minimal mount_sources)
  ultimately show ?thesis
    using handlers_minimal [OF assms] by blast
qed

theorem emitted_minimal_witness:
  "minimal (emptyFilters\<lparr>dietary_tags := Some [7]\<rparr>) \<and>
   emitted [Edit (js '' ''), Elapse 300, TagClick 7] (mount (emptyFilters\<lparr>dietary_tags := Some [7]\<rparr>))
     = [emptyFilters] \<and>
   emitted [Edit (js ''x ''), Elapse 300] (mount (emptyFilters\<lparr>dietary_tags := Some [7]\<rparr>))
     = [emptyFilters\<lparr>search := Some (js ''x''), dietary_tags := Some [7]\<rparr>] \<and>
   minimal emptyFilters \<and>
   minimal (emptyFilters\<lparr>search := Some (js ''x''), dietary_tags := Some [7]\<rparr>)"
proof -
  let ?f = "emptyFilters\<lparr>dietary_tags := Some [7]\<rparr>"
  have m: "minimal ?f" by (simp add: minimal_def emptyFilters_def)
  have a: "emitted [Edit (js '' ''), Elapse 300, TagClick 7] (mount ?f) = [emptyFilters]"
    by (simp add: emitted_def mount_def resetEffect_def handleSearchChange_def debounceEffect_def
      setLocalSearch_def elapse_def timerCallback_def trim_def isWhiteSpace_def orUndefined_def
      emptyFilters_def orElse_def js_def handleDietaryTagToggle_def newTags_def currentTags_def)
  have b: "emitted [Edit (js ''x ''), Elapse 300] (mount ?f) =
      [emptyFilters\<lparr>search := Some (js ''x''), dietary_tags := Some [7]\<rparr>]"
    by (simp add: emitted_def mount_def resetEffect_def handleSearchChange_def debounceEffect_def
      setLocalSearch_def elapse_def timerCallback_def trim_def isWhiteSpace_def orUndefined_def
      emptyFilters_def orElse_def js_def)
  have p: "list_all minimalProps [Edit (js '' ''), Elapse 300, TagClick 7]"
    "list_all minimalProps [Edit (js ''x ''), Elapse 300]" by simp_all
  from emitted_minimal [OF m] p
  have "\<forall>e\<in>set (emitted [Edit (js '' ''), Elapse 300, TagClick 7] (mount ?f)). minimal e"
    "\<forall>e\<in>set (emitted [Edit (js ''x ''), Elapse 300] (mount ?f)). minimal e"
    by blast+
  then have "minimal emptyFilters"
    "minimal (emptyFilters\<lparr>search := Some (js ''x''), dietary_tags := Some [7]\<rparr>)"
    by (simp_all add: a b)
  with m a b show ?thesis by simp
qed

section \<open>Category change\<close>

text \<open>
  C7. The category change emits the committed state with the category replaced by the
  value picked, the value \<^verbatim>\<open>'all'\<close> giving an absent category; no other field changes,
  and the handler calls \<^verbatim>\<open>onFiltersChange\<close> once.
\<close>

theorem category_change:
  "(c = js ''all'' \<longrightarrow> category (handleCategoryChange c f) = None) \<and>
   (c \<noteq> js ''all'' \<longrightarrow> category (handleCategoryChange c f) = Some c) \<and>
   search (handleCategoryChange c f) = search f \<and>
   sort_by (handleCategoryChange c f) = sort_by f \<and>
   sort_order (handleCategoryChange c f) = sort_order f \<and>
   dietary_tags (handleCategoryChange c f) = dietary_tags f \<and>
   fst (step (CategoryPick c) s) = [handleCategoryChange c (filters s)]"
  by (simp add: handleCategoryChange_def)

theorem category_change_witness:
  "handleCategoryChange (js ''all'') (emptyFilters\<lparr>category := Some (js ''Best for Lunch'')\<rparr>) =
     emptyFilters \<and>
   category (handleCategoryChange (js ''Best for Dinner'')
     (emptyFilters\<lparr>category := Some (js ''Best for Lunch'')\<rparr>)) = Some (js ''Best for Dinner'')"
proof -
  let ?f = "emptyFilters\<lparr>category := Some (js ''Best for Lunch'')\<rparr>"
  have n: "js ''Best for Dinner'' \<noteq> js ''all''" by (simp add: js_def)
  from category_change [of "js ''all''" ?f] category_change [of "js ''Best for Dinner''" ?f] n
  show ?thesis by (simp add: emptyFilters_def MealFilters.equality)
qed

section \<open>Sort change\<close>

text \<open>
  C8. The sort change emits the committed state with the sort key and the direction
  replaced by the pair given, no other field changing. Picking a sort key keeps the
  direction (\<^verbatim>\<open>filters.sort_order || 'desc'\<close>: the current value, \<^verbatim>\<open>'desc'\<close> when there
  is none). The direction button keeps the key (\<^verbatim>\<open>filters.sort_by || 'created_at'\<close>)
  and flips the direction: \<^verbatim>\<open>'asc'\<close> becomes \<^verbatim>\<open>'desc'\<close>, \<^verbatim>\<open>'desc'\<close> and an absent
  direction become \<^verbatim>\<open>'asc'\<close>.
\<close>

theorem sort_change:
  "sort_by (handleSortChange k d f) = Some k \<and>
   sort_order (handleSortChange k d f) = Some d \<and>
   search (handleSortChange k d f) = search f \<and>
   category (handleSortChange k d f) = category f \<and>
   dietary_tags (handleSortChange k d f) = dietary_tags f \<and>
   onSortValueChange v f = handleSortChange v (orElse (sort_order f) (js ''desc'')) f \<and>
   (sort_order f = None \<longrightarrow> sort_order (onSortValueChange v f) = Some (js ''desc'')) \<and>
   (\<forall>x. sort_order f = Some x \<and> x \<noteq> [] \<longrightarrow> sort_order (onSortValueChange v f) = Some x) \<and>
   fst (step (SortPick v) s) = [onSortValueChange v (filters s)] \<and>
   onSortOrderClick f =
     handleSortChange (orElse (sort_by f) (js ''created_at''))
       (if sort_order f = Some (js ''asc'') then js ''desc'' else js ''asc'') f \<and>
   (sort_by f = None \<longrightarrow> sort_by (onSortOrderClick f) = Some (js ''created_at'')) \<and>
   (\<forall>x. sort_by f = Some x \<and> x \<noteq> [] \<longrightarrow> sort_by (onSortOrderClick f) = Some x) \<and>
   (sort_order f = Some (js ''asc'') \<longrightarrow> sort_order (onSortOrderClick f) = Some (js ''desc'')) \<and>
   (sort_order f = Some (js ''desc'') \<longrightarrow> sort_order (onSortOrderClick f) = Some (js ''asc'')) \<and>
   (sort_order f = None \<longrightarrow> sort_order (onSortOrderClick f) = Some (js ''asc'')) \<and>
   fst (step SortOrderClick s) = [onSortOrderClick (filters s)]"
proof -
  have n: "js ''desc'' \<noteq> js ''asc''" by (simp add: js_def)
  have a: "sort_by (handleSortChange k d f) = Some k \<and>
   sort_order (handleSortChange k d f) = Some d \<and>
   search (handleSortChange k d f) = search f \<and>
   category (handleSortChange k d f) = category f \<and>
   dietary_tags (handleSortChange k d f) = dietary_tags f"
    by (simp add: handleSortChange_def)
  have b: "onSortValueChange v f = handleSortChange v (orElse (sort_order f) (js ''desc'')) f \<and>
   (sort_order f = None \<longrightarrow> sort_order (onSortValueChange v f) = Some (js ''desc'')) \<and>
   (\<forall>x. sort_order f = Some x \<and> x \<noteq> [] \<longrightarrow> sort_order (onSortValueChange v f) = Some x) \<and>
   fst (step (SortPick v) s) = [onSortValueChange v (filters s)]"
    by (simp add: onSortValueChange_def handleSortChange_def orElse_def)
  have c: "onSortOrderClick f =
     handleSortChange (orElse (sort_by f) (js ''created_at''))
       (if sort_order f = Some (js ''asc'') then js ''desc'' else js ''asc'') f \<and>
   (sort_by f = None \<longrightarrow> sort_by (onSortOrderClick f) = Some (js ''created_at'')) \<and>
   (\<forall>x. sort_by f = Some x \<and> x \<noteq> [] \<longrightarrow> sort_by (onSortOrderClick f) = Some x)"
    by (simp add: onSortOrderClick_def handleSortChange_def orElse_def)
  have d: "(sort_order f = Some (js ''asc'') \<longrightarrow> sort_order (onSortOrderClick f) = Some (js ''desc'')) \<and>
   (sort_order f = Some (js ''desc'') \<longrightarrow> sort_order (onSortOrderClick f) = Some (js ''asc'')) \<and>
   (sort_order f = None \<longrightarrow> sort_order (onSortOrderClick f) = Some (js ''asc'')) \<and>
   fst (step SortOrderClick s) = [onSortOrderClick (filters s)]"
    using n by (simp add: onSortOrderClick_def handleSortChange_def)
  from a b c d show ?thesis by blast
qed

theorem sort_change_witness:
  "onSortValueChange (js ''name'') emptyFilters =
     emptyFilters\<lparr>sort_by := Some (js ''name''), sort_order := Some (js ''desc'')\<rparr> \<and>
   onSortOrderClick (emptyFilters\<lparr>sort_by := Some (js ''name''), sort_order := Some (js ''desc'')\<rparr>) =
     emptyFilters\<lparr>sort_by := Some (js ''name''), sort_order := Some (js ''asc'')\<rparr> \<and>
   onSortOrderClick (emptyFilters\<lparr>sort_by := Some (js ''name''), sort_order := Some (js ''asc'')\<rparr>) =
     emptyFilters\<lparr>sort_by := Some (js ''name''), sort_order := Some (js ''desc'')\<rparr> \<and>
   onSortOrderClick emptyFilters =
     emptyFilters\<lparr>sort_by := Some (js ''created_at''), sort_order := Some (js ''asc'')\<rparr>"
proof -
  let ?d = "emptyFilters\<lparr>sort_by := Some (js ''name''), sort_order := Some (js ''desc'')\<rparr>"
  let ?a = "emptyFilters\<lparr>sort_by := Some (js ''name''), sort_order := Some (js ''asc'')\<rparr>"
  have n: "js ''desc'' \<noteq> js ''asc''" "js ''name'' \<noteq> []" by (simp_all add: js_def)
  have e: "sort_order emptyFilters = None" "sort_by emptyFilters = None"
    by (simp_all add: emptyFilters_def)
  have h: "handleSortChange k d emptyFilters = emptyFilters\<lparr>sort_by := Some k, sort_order := Some d\<rparr>"
    "handleSortChange k d (emptyFilters\<lparr>sort_by := Some k', sort_order := Some d'\<rparr>) =
       emptyFilters\<lparr>sort_by := Some k, sort_order := Some d\<rparr>" for k d k' d'
    using sort_change [of k d emptyFilters]
      sort_change [of k d "emptyFilters\<lparr>sort_by := Some k', sort_order := Some d'\<rparr>"]
    by (simp_all add: emptyFilters_def MealFilters.equality)
  have "onSortValueChange (js ''name'') emptyFilters = ?d"
    using sort_change [of _ _ emptyFilters "js ''name''"] by (simp add: e h orElse_def)
  moreover have "onSortOrderClick ?d = ?a"
    using sort_change [of _ _ ?d] by (simp add: n h orElse_def)
  moreover have "onSortOrderClick ?a = ?d"
    using sort_change [of _ _ ?a] by (simp add: n h orElse_def)
  moreover have "onSortOrderClick emptyFilters =
      emptyFilters\<lparr>sort_by := Some (js ''created_at''), sort_order := Some (js ''asc'')\<rparr>"
    using sort_change [of _ _ emptyFilters] by (simp add: e h orElse_def)
  ultimately show ?thesis by simp
qed

section \<open>Clear all\<close>

text \<open>
  C9. For every committed FilterState, the clear-all operation emits the empty
  FilterState: every field is absent, whatever the committed state held.
\<close>

theorem clearAllFilters_empty:
  "clearAllFilters f = emptyFilters \<and>
   search (clearAllFilters f) = None \<and> category (clearAllFilters f) = None \<and>
   sort_by (clearAllFilters f) = None \<and> sort_order (clearAllFilters f) = None \<and>
   dietary_tags (clearAllFilters f) = None"
  by (simp add: clearAllFilters_def emptyFilters_def)

section \<open>Toggling a tag twice\<close>

lemma newTags_twice:
  "newTags t (newTags t ts) = (if t \<in> set ts then filter (\<lambda>i. i \<noteq> t) ts @ [t] else ts)"
  by (induction ts) (auto simp: newTags_def)

lemma filter_snoc_id:
  "filter (\<lambda>i. i \<noteq> t) ts @ [t] = ts \<longleftrightarrow> ts \<noteq> [] \<and> last ts = t \<and> t \<notin> set (butlast ts)"
proof (cases ts rule: rev_cases)
  case Nil
  then show ?thesis by simp
next
  case (snoc ys y)
  then show ?thesis
    by (cases "y = t") (auto simp: filter_id_conv)
qed

text \<open>
  C10, amended. Toggling a tag \<open>t\<close> twice gives a tag list with the same elements as the
  list \<open>s\<close> before. It is \<open>s\<close> itself exactly when \<open>t\<close> is not in \<open>s\<close>, or \<open>t\<close> is the last
  element of \<open>s\<close> and occurs nowhere else in it; on a list without duplicates, exactly when
  \<open>t\<close> is not in \<open>s\<close> or is its last element. When \<open>t\<close> is in \<open>s\<close>, the result is \<open>s\<close> without
  \<open>t\<close>, followed by \<open>t\<close>: the tag moves to the end.
\<close>

theorem double_toggle:
  "set (currentTags (handleDietaryTagToggle t (handleDietaryTagToggle t f))) = set (currentTags f) \<and>
   (currentTags (handleDietaryTagToggle t (handleDietaryTagToggle t f)) = currentTags f \<longleftrightarrow>
      t \<notin> set (currentTags f) \<or>
      (currentTags f \<noteq> [] \<and> last (currentTags f) = t \<and> t \<notin> set (butlast (currentTags f)))) \<and>
   (distinct (currentTags f) \<longrightarrow>
      (currentTags (handleDietaryTagToggle t (handleDietaryTagToggle t f)) = currentTags f \<longleftrightarrow>
       t \<notin> set (currentTags f) \<or> (currentTags f \<noteq> [] \<and> last (currentTags f) = t))) \<and>
   (t \<in> set (currentTags f) \<longrightarrow>
      currentTags (handleDietaryTagToggle t (handleDietaryTagToggle t f)) =
        filter (\<lambda>i. i \<noteq> t) (currentTags f) @ [t])"
proof -
  let ?ts = "currentTags f"
  have tw: "currentTags (handleDietaryTagToggle t (handleDietaryTagToggle t f)) =
      (if t \<in> set ?ts then filter (\<lambda>i. i \<noteq> t) ?ts @ [t] else ?ts)"
    by (simp only: currentTags_toggle newTags_twice)
  have a: "set (currentTags (handleDietaryTagToggle t (handleDietaryTagToggle t f))) = set ?ts"
    by (auto simp: tw)
  have b: "currentTags (handleDietaryTagToggle t (handleDietaryTagToggle t f)) = ?ts \<longleftrightarrow>
      t \<notin> set ?ts \<or> (?ts \<noteq> [] \<and> last ?ts = t \<and> t \<notin> set (butlast ?ts))"
    by (simp add: tw filter_snoc_id)
  have c: "t \<notin> set (butlast ?ts)" if "distinct ?ts" "?ts \<noteq> []" "last ?ts = t"
    using that by (metis append_butlast_last_id distinct_append disjoint_iff list.set_intros(1) set_simps(2) list.simps(15) insertI1)
  have d: "distinct ?ts \<longrightarrow>
      (currentTags (handleDietaryTagToggle t (handleDietaryTagToggle t f)) = ?ts \<longleftrightarrow>
       t \<notin> set ?ts \<or> (?ts \<noteq> [] \<and> last ?ts = t))"
    using b c by blast
  have e: "t \<in> set ?ts \<longrightarrow>
      currentTags (handleDietaryTagToggle t (handleDietaryTagToggle t f)) =
        filter (\<lambda>i. i \<noteq> t) ?ts @ [t]"
    by (simp add: tw)
  from a b d e show ?thesis by blast
qed

theorem double_toggle_witness:
  "distinct (currentTags (emptyFilters\<lparr>dietary_tags := Some [1, 2, 3]\<rparr>)) \<and>
   currentTags (handleDietaryTagToggle 1 (handleDietaryTagToggle 1
     (emptyFilters\<lparr>dietary_tags := Some [1, 2, 3]\<rparr>))) = [2, 3, 1] \<and>
   currentTags (handleDietaryTagToggle 3 (handleDietaryTagToggle 3
     (emptyFilters\<lparr>dietary_tags := Some [1, 2, 3]\<rparr>))) = [1, 2, 3]"
proof -
  let ?f = "emptyFilters\<lparr>dietary_tags := Some [1, 2, 3]\<rparr>"
  have c: "currentTags ?f = [1, 2, 3]" by (simp add: currentTags_def)
  from double_toggle [of 1 ?f] double_toggle [of 3 ?f] show ?thesis
    by (simp add: c)
qed

text \<open>
  As C10 is worded, the double toggle restores every list whose last element is \<open>t\<close>. On
  the list \<open>[1, 1]\<close> it gives \<open>[1]\<close>.
\<close>

theorem double_toggle_counterexample:
  "last (currentTags (emptyFilters\<lparr>dietary_tags := Some [1, 1]\<rparr>)) = 1 \<and>
   currentTags (handleDietaryTagToggle 1 (handleDietaryTagToggle 1
     (emptyFilters\<lparr>dietary_tags := Some [1, 1]\<rparr>))) \<noteq>
   currentTags (emptyFilters\<lparr>dietary_tags := Some [1, 1]\<rparr>)"
  by (simp add: handleDietaryTagToggle_def newTags_def currentTags_def emptyFilters_def)

end
